theory Spec2Isabelle
  imports Main "HOL-Library.Log_Nat"
begin

section \<open>The resource pool of \<open>ordered_resources.py\<close>\<close>

text \<open>
  The exceptions that can leave the constructor, \<open>is_resource_free\<close> and \<open>locate\<close>.
  \<open>NegativeSize\<close>, \<open>IndexOutOfBound\<close>, \<open>TooManyProbes\<close> and \<open>AllResourcesInUse\<close> are the
  classes of the module; \<open>ValueError\<close> is the plain built-in raised by
  \<open>random.randint\<close> on an empty range, \<open>KeyError\<close> the one of a dictionary lookup, and
  \<open>NotImplementedError\<close> the one named in the last statement of \<open>locate\<close>.
\<close>

datatype error =
    NegativeSize
  | IndexOutOfBound
  | TooManyProbes
  | AllResourcesInUse
  | ValueError
  | KeyError
  | NotImplementedError

text \<open>
  An instance of the class. Python integers are unbounded, hence \<open>int\<close>. The first four
  fields are the attributes \<open>size\<close>, \<open>_free_count\<close>, \<open>_busy_count\<close> and
  \<open>_first_available_resource\<close>. \<open>printed\<close> is what \<open>is_resource_free\<close> has written to
  standard output so far. \<open>probed\<close> is a history variable, absent from the source: the
  arguments of the calls of \<open>is_resource_free\<close> so far, in order; no definition below
  ever reads it.
\<close>

record OrderedResources =
  size_pool :: int
  free_count :: int
  busy_count :: int
  first_available_resource :: int
  printed :: "int list"
  probed :: "int list"

type_synonym 'a outcome = "(error + 'a) \<times> OrderedResources"

text \<open>
  \<open>random.randint(a, b)\<close> is \<open>randrange(a, b + 1)\<close>: with \<open>width = b + 1 - a\<close> it returns
  \<open>a + _randbelow(width)\<close> when \<open>width > 0\<close> and raises \<open>ValueError\<close> otherwise. The raw
  random number is the parameter \<open>rnd\<close>, reduced below \<open>width\<close>.
\<close>

definition randint :: "int \<Rightarrow> int \<Rightarrow> int \<Rightarrow> error + int" where
  "randint a b rnd =
     (let width = b + 1 - a
      in if width > 0 then Inr (a + rnd mod width) else Inl ValueError)"

text \<open>The instance that \<open>__init__\<close> leaves behind when the random draw is \<open>t\<close>.\<close>

definition new_pool :: "int \<Rightarrow> int \<Rightarrow> OrderedResources" where
  "new_pool n t =
     \<lparr>size_pool = n, free_count = 0, busy_count = 0, first_available_resource = t,
      printed = [], probed = []\<rparr>"

definition OrderedResources_init :: "int \<Rightarrow> int \<Rightarrow> error + OrderedResources" where
  "OrderedResources_init n rnd =
     (if n < 0 then Inl NegativeSize
      else case randint 0 (n - 1) rnd of
             Inl e \<Rightarrow> Inl e
           | Inr t \<Rightarrow> Inr (new_pool n t))"

text \<open>
  \<open>is_resource_free\<close>. The counters are updated before the budget check, so the
  instance returned with \<open>TooManyProbes\<close> has the free probe counted.
\<close>

definition is_resource_free :: "OrderedResources \<Rightarrow> int \<Rightarrow> bool outcome" where
  "is_resource_free self0 index =
     (let self = self0\<lparr>probed := probed self0 @ [index]\<rparr>
      in if index \<ge> size_pool self then (Inl IndexOutOfBound, self)
         else
           let is_free = (index \<ge> first_available_resource self)
           in if is_free then
                (let self1 = self\<lparr>free_count := free_count self + 1\<rparr>;
                     self2 = self1\<lparr>printed := printed self1 @ [free_count self1]\<rparr>
                 in if free_count self2 > 2 then (Inl TooManyProbes, self2)
                    else (Inr is_free, self2))
              else (Inr is_free, self\<lparr>busy_count := busy_count self + 1\<rparr>))"

text \<open>Statements in sequence: the second runs only when the first did not raise.\<close>

definition raise :: "error \<Rightarrow> OrderedResources \<Rightarrow> 'a outcome" where
  "raise e self = (Inl e, self)"

definition seq :: "(OrderedResources \<Rightarrow> 'a outcome) \<Rightarrow> (OrderedResources \<Rightarrow> 'b outcome)
    \<Rightarrow> OrderedResources \<Rightarrow> 'b outcome" where
  "seq m k self =
     (case m self of
        (Inl e, self') \<Rightarrow> (Inl e, self')
      | (Inr _, self') \<Rightarrow> k self')"

text \<open>
  The first statement of the loop body of \<open>locate\<close>: consult the cache, and call
  \<open>is_resource_free\<close> on a miss.
\<close>

definition fill_cache :: "(int \<rightharpoonup> bool) \<Rightarrow> int \<Rightarrow> OrderedResources \<Rightarrow> (int \<rightharpoonup> bool) outcome" where
  "fill_cache cache i self =
     (if cache i = None then
        (case is_resource_free self i of
           (Inl e, self') \<Rightarrow> (Inl e, self')
         | (Inr b, self') \<Rightarrow> (Inr (cache(i \<mapsto> b)), self'))
      else (Inr cache, self))"

text \<open>
  The \<open>for\<close> loop of \<open>locate\<close> over the remaining indices, then the statements after it.
  The arguments are the indices still to visit, the cache, the flag
  \<open>free_resource_found\<close> and the instance.
\<close>

fun locate_loop :: "int list \<Rightarrow> (int \<rightharpoonup> bool) \<Rightarrow> bool \<Rightarrow> OrderedResources \<Rightarrow> int outcome" where
  "locate_loop [] cache free_resource_found self =
     (if free_resource_found then (Inr (size_pool self - 1), self)
      else seq (raise AllResourcesInUse :: OrderedResources \<Rightarrow> unit outcome)
             (raise NotImplementedError) self)"
| "locate_loop (i # rest) cache free_resource_found self =
     (case fill_cache cache i self of
        (Inl e, self') \<Rightarrow> (Inl e, self')
      | (Inr cache', self') \<Rightarrow>
          (case cache' i of
             None \<Rightarrow> (Inl KeyError, self')
           | Some True \<Rightarrow>
               if free_resource_found then (Inr (i - 1), self')
               else locate_loop rest cache' True self'
           | Some False \<Rightarrow> locate_loop rest cache' False self'))"

definition locate :: "OrderedResources \<Rightarrow> int outcome" where
  "locate self =
     (if size_pool self = 0 then raise AllResourcesInUse self
      else locate_loop [0 .. size_pool self - 1] Map.empty False self)"

text \<open>The number of calls of \<open>is_resource_free\<close> that were in range, as the benchmark
  of the module counts them: \<open>pool._busy_count + pool._free_count\<close>.\<close>

definition probes_spent :: "OrderedResources \<Rightarrow> int" where
  "probes_spent self = busy_count self + free_count self"

section \<open>Facts about \<open>is_resource_free\<close>\<close>

lemma is_resource_free_busy:
  "index < size_pool p \<Longrightarrow> index < first_available_resource p \<Longrightarrow>
   is_resource_free p index =
     (Inr False, p\<lparr>probed := probed p @ [index], busy_count := busy_count p + 1\<rparr>)"
  by (simp add: is_resource_free_def Let_def)

lemma is_resource_free_free:
  "index < size_pool p \<Longrightarrow> first_available_resource p \<le> index \<Longrightarrow> free_count p < 2 \<Longrightarrow>
   is_resource_free p index =
     (Inr True, p\<lparr>probed := probed p @ [index], free_count := free_count p + 1,
                  printed := printed p @ [free_count p + 1]\<rparr>)"
  by (simp add: is_resource_free_def Let_def)

lemma is_resource_free_over:
  "index < size_pool p \<Longrightarrow> first_available_resource p \<le> index \<Longrightarrow> 2 \<le> free_count p \<Longrightarrow>
   is_resource_free p index =
     (Inl TooManyProbes, p\<lparr>probed := probed p @ [index], free_count := free_count p + 1,
                  printed := printed p @ [free_count p + 1]\<rparr>)"
  by (simp add: is_resource_free_def Let_def)

lemma is_resource_free_oob:
  "size_pool p \<le> index \<Longrightarrow>
   is_resource_free p index = (Inl IndexOutOfBound, p\<lparr>probed := probed p @ [index]\<rparr>)"
  by (simp add: is_resource_free_def Let_def)

lemma is_resource_free_size [simp]: "size_pool (snd (is_resource_free p index)) = size_pool p"
  by (simp add: is_resource_free_def Let_def)

lemma is_resource_free_boundary [simp]:
  "first_available_resource (snd (is_resource_free p index)) = first_available_resource p"
  by (simp add: is_resource_free_def Let_def)

section \<open>The loop of \<open>locate\<close>\<close>

text \<open>
  While the indices visited lie below the first free resource, every probe is answered
  busy: the loop only counts them and moves on, with the flag cleared.
\<close>

lemma locate_loop_busy_run:
  assumes "i \<le> j" "j \<le> first_available_resource p" "j \<le> size_pool p"
    and "\<forall>k\<ge>i. cache k = None"
  shows "\<exists>cache'. (\<forall>k\<ge>j. cache' k = None) \<and>
           locate_loop [i .. size_pool p - 1] cache found p =
           locate_loop [j .. size_pool p - 1] cache' (if i = j then found else False)
             (p\<lparr>probed := probed p @ [i .. j - 1], busy_count := busy_count p + (j - i)\<rparr>)"
  using assms
proof (induction "nat (j - i)" arbitrary: i cache found p)
  case 0
  then have "i = j" by simp
  with 0 show ?case by (intro exI [of _ cache]) simp
next
  case (Suc d)
  then have lt: "i < j" and d: "d = nat (j - (i + 1))" by linarith+
  let ?p = "p\<lparr>probed := probed p @ [i], busy_count := busy_count p + 1\<rparr>"
  let ?c = "cache(i \<mapsto> False)"
  have step: "locate_loop [i .. size_pool p - 1] cache found p =
      locate_loop [i + 1 .. size_pool p - 1] ?c False ?p"
  proof -
    have "[i .. size_pool p - 1] = i # [i + 1 .. size_pool p - 1]"
      using lt Suc.prems by (simp add: upto_rec1)
    moreover have "cache i = None" using Suc.prems by simp
    moreover have "is_resource_free p i = (Inr False, ?p)"
      using lt Suc.prems by (simp add: is_resource_free_busy)
    ultimately show ?thesis by (simp add: fill_cache_def)
  qed
  have "\<exists>cache'. (\<forall>k\<ge>j. cache' k = None) \<and>
           locate_loop [i + 1 .. size_pool ?p - 1] ?c False ?p =
           locate_loop [j .. size_pool ?p - 1] cache' (if i + 1 = j then False else False)
             (?p\<lparr>probed := probed ?p @ [i + 1 .. j - 1],
                  busy_count := busy_count ?p + (j - (i + 1))\<rparr>)"
    using lt Suc.prems by (intro Suc.hyps(1) [OF d]) auto
  then obtain cache' where c: "\<forall>k\<ge>j. cache' k = None"
    and eq: "locate_loop [i + 1 .. size_pool p - 1] ?c False ?p =
           locate_loop [j .. size_pool p - 1] cache' False
             (?p\<lparr>probed := probed ?p @ [i + 1 .. j - 1],
                  busy_count := busy_count ?p + (j - (i + 1))\<rparr>)"
    by auto
  have "[i .. j - 1] = i # [i + 1 .. j - 1]" using lt by (simp add: upto_rec1)
  then have "?p\<lparr>probed := probed ?p @ [i + 1 .. j - 1],
                  busy_count := busy_count ?p + (j - (i + 1))\<rparr> =
        p\<lparr>probed := probed p @ [i .. j - 1], busy_count := busy_count p + (j - i)\<rparr>"
    by simp
  with step eq c lt show ?case by (intro exI [of _ cache']) simp
qed

text \<open>
  From the first free index on, the loop makes at most two more probes: it stops at
  the second free answer, at the end of the range, or at the budget failure.
\<close>

lemma locate_loop_free_phase:
  assumes "first_available_resource p \<le> i" "i < size_pool p" "\<forall>k\<ge>i. cache k = None"
  shows "locate_loop [i .. size_pool p - 1] cache False p =
     (if 2 \<le> free_count p then
        (Inl TooManyProbes, p\<lparr>probed := probed p @ [i], free_count := free_count p + 1,
                  printed := printed p @ [free_count p + 1]\<rparr>)
      else if i = size_pool p - 1 then
        (Inr i, p\<lparr>probed := probed p @ [i], free_count := free_count p + 1,
                  printed := printed p @ [free_count p + 1]\<rparr>)
      else
        (if 1 \<le> free_count p then Inl TooManyProbes else Inr i,
         p\<lparr>probed := probed p @ [i, i + 1], free_count := free_count p + 2,
           printed := printed p @ [free_count p + 1, free_count p + 2]\<rparr>))"
proof -
  have l: "[i .. size_pool p - 1] = i # [i + 1 .. size_pool p - 1]"
    using assms by (simp add: upto_rec1)
  have ci: "cache i = None" and ci1: "cache (i + 1) = None" using assms by simp_all
  show ?thesis
  proof (cases "2 \<le> free_count p")
    case True
    with assms l ci show ?thesis by (simp add: fill_cache_def is_resource_free_over)
  next
    case False
    let ?p = "p\<lparr>probed := probed p @ [i], free_count := free_count p + 1,
                  printed := printed p @ [free_count p + 1]\<rparr>"
    have one: "locate_loop [i .. size_pool p - 1] cache False p =
        locate_loop [i + 1 .. size_pool p - 1] (cache(i \<mapsto> True)) True ?p"
      using False assms l ci by (simp add: fill_cache_def is_resource_free_free)
    show ?thesis
    proof (cases "i = size_pool p - 1")
      case True
      with one False show ?thesis by (simp add: raise_def)
    next
      case ne: False
      then have "i + 1 \<le> size_pool p - 1" using assms by simp
      then have l2: "[i + 1 .. size_pool p - 1] = (i + 1) # [i + 1 + 1 .. size_pool p - 1]"
        by (rule upto_rec1)
      show ?thesis
      proof (cases "1 \<le> free_count p")
        case True
        with one False ne l2 ci1 assms show ?thesis
          by (simp add: fill_cache_def is_resource_free_over)
      next
        case False
        with one ne l2 ci1 assms show ?thesis
          by (simp add: fill_cache_def is_resource_free_free)
      qed
    qed
  qed
qed

section \<open>What \<open>locate\<close> computes\<close>

lemma locate_nonpositive: "size_pool p \<le> 0 \<Longrightarrow> locate p = (Inl AllResourcesInUse, p)"
  by (simp add: locate_def raise_def seq_def)

lemma locate_all_busy:
  assumes "0 < size_pool p" "size_pool p \<le> first_available_resource p"
  shows "locate p =
    (Inl AllResourcesInUse,
     p\<lparr>probed := probed p @ [0 .. size_pool p - 1],
       busy_count := busy_count p + size_pool p\<rparr>)"
proof -
  obtain cache' where
    "locate_loop [0 .. size_pool p - 1] Map.empty False p =
     locate_loop [size_pool p .. size_pool p - 1] cache' (if 0 = size_pool p then False else False)
       (p\<lparr>probed := probed p @ [0 .. size_pool p - 1],
          busy_count := busy_count p + (size_pool p - 0)\<rparr>)"
    using locate_loop_busy_run [of 0 "size_pool p" p Map.empty False] assms by auto
  with assms show ?thesis by (simp add: locate_def raise_def seq_def)
qed

lemma locate_some_free:
  assumes "0 \<le> first_available_resource p" "first_available_resource p < size_pool p"
  shows "locate p =
    (let t = first_available_resource p;
         q = p\<lparr>probed := probed p @ [0 .. t - 1], busy_count := busy_count p + t\<rparr>
     in if 2 \<le> free_count p then
          (Inl TooManyProbes, q\<lparr>probed := probed q @ [t], free_count := free_count p + 1,
                  printed := printed p @ [free_count p + 1]\<rparr>)
        else if t = size_pool p - 1 then
          (Inr t, q\<lparr>probed := probed q @ [t], free_count := free_count p + 1,
                  printed := printed p @ [free_count p + 1]\<rparr>)
        else
          (if 1 \<le> free_count p then Inl TooManyProbes else Inr t,
           q\<lparr>probed := probed q @ [t, t + 1], free_count := free_count p + 2,
             printed := printed p @ [free_count p + 1, free_count p + 2]\<rparr>))"
proof -
  let ?t = "first_available_resource p"
  let ?q = "p\<lparr>probed := probed p @ [0 .. ?t - 1], busy_count := busy_count p + ?t\<rparr>"
  obtain cache' where c: "\<forall>k\<ge>?t. cache' k = None" and
    run: "locate_loop [0 .. size_pool p - 1] Map.empty False p =
     locate_loop [?t .. size_pool p - 1] cache' (if 0 = ?t then False else False)
       (p\<lparr>probed := probed p @ [0 .. ?t - 1], busy_count := busy_count p + (?t - 0)\<rparr>)"
    using locate_loop_busy_run [of 0 ?t p Map.empty False] assms by auto
  have "locate p = locate_loop [?t .. size_pool ?q - 1] cache' False ?q"
    using assms run by (simp add: locate_def)
  also have "\<dots> = (if 2 \<le> free_count ?q then
        (Inl TooManyProbes, ?q\<lparr>probed := probed ?q @ [?t], free_count := free_count ?q + 1,
                  printed := printed ?q @ [free_count ?q + 1]\<rparr>)
      else if ?t = size_pool ?q - 1 then
        (Inr ?t, ?q\<lparr>probed := probed ?q @ [?t], free_count := free_count ?q + 1,
                  printed := printed ?q @ [free_count ?q + 1]\<rparr>)
      else
        (if 1 \<le> free_count ?q then Inl TooManyProbes else Inr ?t,
         ?q\<lparr>probed := probed ?q @ [?t, ?t + 1], free_count := free_count ?q + 2,
           printed := printed ?q @ [free_count ?q + 1, free_count ?q + 2]\<rparr>))"
    using assms c by (intro locate_loop_free_phase) simp_all
  finally show ?thesis by (simp add: Let_def)
qed

lemma locate_fresh:
  assumes "0 \<le> t" "t < n"
  shows "locate (new_pool n t) =
    (Inr t, \<lparr>size_pool = n, free_count = (if t = n - 1 then 1 else 2), busy_count = t,
       first_available_resource = t,
       printed = (if t = n - 1 then [1] else [1, 2]),
       probed = [0 .. min (t + 1) (n - 1)]\<rparr>)"
proof (cases "t = n - 1")
  case True
  have "[0 .. t] = [0 .. t - 1] @ [t]" using assms by (simp add: upto_rec2)
  moreover have "min (t + 1) (n - 1) = t" using True by simp
  ultimately show ?thesis
    using assms True by (simp add: locate_some_free new_pool_def Let_def)
next
  case False
  have "[0 .. t] = [0 .. t - 1] @ [t]" using assms by (simp add: upto_rec2)
  then have "[0 .. t + 1] = [0 .. t - 1] @ [t, t + 1]"
    using assms upto_rec2 [of 0 "t + 1"] by simp
  moreover have "min (t + 1) (n - 1) = t + 1" using False assms by simp
  ultimately show ?thesis
    using assms False by (simp add: locate_some_free new_pool_def Let_def)
qed

lemma locate_fresh_all_busy:
  assumes "0 < n" "n \<le> t"
  shows "locate (new_pool n t) =
    (Inl AllResourcesInUse, \<lparr>size_pool = n, free_count = 0, busy_count = n,
       first_available_resource = t, printed = [], probed = [0 .. n - 1]\<rparr>)"
  using assms by (simp add: locate_all_busy new_pool_def)

section \<open>The constructor\<close>

lemma OrderedResources_init_eq:
  "OrderedResources_init n rnd =
     (if n < 0 then Inl NegativeSize else if n = 0 then Inl ValueError
      else Inr (new_pool n (rnd mod n)))"
  by (simp add: OrderedResources_init_def randint_def)

lemma OrderedResources_init_negative_iff: "OrderedResources_init n rnd = Inl NegativeSize \<longleftrightarrow> n < 0"
  by (simp add: OrderedResources_init_eq)

lemma OrderedResources_init_positive:
  "0 < n \<Longrightarrow> \<exists>t. 0 \<le> t \<and> t < n \<and> OrderedResources_init n rnd = Inr (new_pool n t)"
  by (rule exI [of _ "rnd mod n"]) (simp add: OrderedResources_init_eq)

lemma OrderedResources_init_every_boundary:
  "0 \<le> t \<Longrightarrow> t < n \<Longrightarrow> OrderedResources_init n t = Inr (new_pool n t)"
  by (simp add: OrderedResources_init_eq)

section \<open>Auxiliary facts\<close>

text \<open>No call of the module raises \<open>NotImplementedError\<close> before the loop of \<open>locate\<close>
  ends, and the statement after the loop does not either.\<close>

lemma is_resource_free_errors:
  "fst (is_resource_free p i) \<noteq> Inl NotImplementedError"
  by (simp add: is_resource_free_def Let_def)

lemma fill_cache_errors: "fst (fill_cache cache i p) \<noteq> Inl NotImplementedError"
  using is_resource_free_errors [of p i]
  by (auto simp add: fill_cache_def split: prod.splits sum.splits)

lemma locate_loop_errors:
  "fst (locate_loop xs cache found p) \<noteq> Inl NotImplementedError"
proof (induction xs arbitrary: cache found p)
  case Nil
  show ?case by (simp add: seq_def raise_def)
next
  case (Cons i rest)
  show ?case
    using fill_cache_errors [of cache i p] Cons.IH
    by (auto split: prod.splits sum.splits option.splits bool.splits)
qed

text \<open>A doubling pool size outgrows every multiple of its bit length.\<close>

lemma upto_0_6: "[0 .. 6 :: int] = [0, 1, 2, 3, 4, 5, 6]"
  by (simp add: upto_rec1)

lemma linear_beats_log:
  fixes c k :: nat
  assumes k: "k = 2 * c + 2"
  shows "int c * (int k + 1) < 2 ^ k"
proof -
  have a: "c < 2 ^ c" by simp
  have "0 < (2::nat) ^ c" by simp
  with a have b: "k + 1 \<le> 4 * 2 ^ c" unfolding k by linarith
  have "c * (k + 1) \<le> c * (4 * 2 ^ c)" using b by (rule mult_le_mono2)
  also have "\<dots> < 2 ^ c * (4 * 2 ^ c)" using a by (intro mult_strict_right_mono) simp_all
  also have "\<dots> = 2 ^ k"
  proof -
    have "k = c + c + 2" using k by simp
    then show ?thesis by (simp add: power_add)
  qed
  finally have "int (c * (k + 1)) < int (2 ^ k)" by (simp only: of_nat_less_iff)
  then show ?thesis by (simp add: algebra_simps)
qed

lemma bitlen_two_power: "bitlen (2 ^ k) = int k + 1"
proof -
  have "bitlen 1 = 1" by (simp add: compute_bitlen)
  with bitlen_pow2 [of 1 k] show ?thesis by simp
qed

section \<open>The claims\<close>

text \<open>
  C1. For every size \<open>\<ge> 0\<close> and every first free index in \<open>[0, size]\<close>, whatever the
  counters of the instance are, \<open>locate\<close> has one of three outcomes: it returns exactly
  the first free index, when that is below the size; it raises \<open>AllResourcesInUse\<close>
  (no free resource), when the first free index equals the size; or it fails with
  \<open>TooManyProbes\<close>. There is no other outcome, in particular no wrong index.
\<close>

theorem locate_outcomes:
  assumes "0 \<le> size_pool p" "0 \<le> first_available_resource p"
    "first_available_resource p \<le> size_pool p"
  shows "(first_available_resource p < size_pool p \<and>
            fst (locate p) = Inr (first_available_resource p))
       \<or> (first_available_resource p = size_pool p \<and> fst (locate p) = Inl AllResourcesInUse)
       \<or> fst (locate p) = Inl TooManyProbes"
proof (cases "first_available_resource p < size_pool p")
  case True
  with assms show ?thesis by (simp add: locate_some_free Let_def)
next
  case False
  with assms have eq: "first_available_resource p = size_pool p" by simp
  show ?thesis
  proof (cases "size_pool p = 0")
    case True
    with eq show ?thesis by (simp add: locate_nonpositive)
  next
    case False
    with assms eq show ?thesis by (simp add: locate_all_busy)
  qed
qed

theorem locate_outcomes_witness:
  "0 \<le> size_pool (new_pool 8 5) \<and> 0 \<le> first_available_resource (new_pool 8 5) \<and>
   first_available_resource (new_pool 8 5) \<le> size_pool (new_pool 8 5) \<and>
   (fst (locate (new_pool 8 5)) = Inr 5 \<or> fst (locate (new_pool 8 5)) = Inl TooManyProbes)"
  using locate_outcomes [of "new_pool 8 5"] by (simp add: new_pool_def)

text \<open>
  C2. \<open>is_resource_free\<close> raises \<open>IndexOutOfBound\<close> when the index is at least the size.
  Otherwise the answer is free exactly when the index is at least the first free index,
  and the matching counter goes up by one while the other stays. When the answer would
  be free and two free answers have been counted already, the call raises
  \<open>TooManyProbes\<close> instead of returning, and the free counter is incremented all the same.
\<close>

theorem is_resource_free_contract:
  "(size_pool p \<le> i \<longrightarrow> fst (is_resource_free p i) = Inl IndexOutOfBound) \<and>
   (i < size_pool p \<and> i < first_available_resource p \<longrightarrow>
      fst (is_resource_free p i) = Inr False \<and>
      busy_count (snd (is_resource_free p i)) = busy_count p + 1 \<and>
      free_count (snd (is_resource_free p i)) = free_count p) \<and>
   (i < size_pool p \<and> first_available_resource p \<le> i \<and> free_count p < 2 \<longrightarrow>
      fst (is_resource_free p i) = Inr True \<and>
      free_count (snd (is_resource_free p i)) = free_count p + 1 \<and>
      busy_count (snd (is_resource_free p i)) = busy_count p) \<and>
   (i < size_pool p \<and> first_available_resource p \<le> i \<and> 2 \<le> free_count p \<longrightarrow>
      fst (is_resource_free p i) = Inl TooManyProbes \<and>
      free_count (snd (is_resource_free p i)) = free_count p + 1 \<and>
      busy_count (snd (is_resource_free p i)) = busy_count p)"
  by (simp add: is_resource_free_def Let_def)

theorem is_resource_free_contract_witness:
  "fst (is_resource_free (new_pool 8 5) 8) = Inl IndexOutOfBound \<and>
   fst (is_resource_free (new_pool 8 5) 4) = Inr False \<and>
   busy_count (snd (is_resource_free (new_pool 8 5) 4)) = 1 \<and>
   fst (is_resource_free (new_pool 8 5) 5) = Inr True \<and>
   free_count (snd (is_resource_free (new_pool 8 5) 5)) = 1 \<and>
   fst (is_resource_free ((new_pool 8 5)\<lparr>free_count := 2\<rparr>) 5) = Inl TooManyProbes \<and>
   free_count (snd (is_resource_free ((new_pool 8 5)\<lparr>free_count := 2\<rparr>) 5)) = 3"
  using is_resource_free_contract [of "new_pool 8 5" 8]
    is_resource_free_contract [of "new_pool 8 5" 4]
    is_resource_free_contract [of "new_pool 8 5" 5]
    is_resource_free_contract [of "(new_pool 8 5)\<lparr>free_count := 2\<rparr>" 5]
  by (simp add: new_pool_def)

text \<open>
  C3, as the code has it. On an instance of size 0, \<open>locate\<close> raises \<open>AllResourcesInUse\<close>
  without calling \<open>is_resource_free\<close>: the instance, with both counters, is returned as it
  was. That outcome is the very one \<open>locate\<close> has on a pool of positive size with no free
  resource: the module has no separate outcome for the empty pool.
\<close>

theorem locate_empty_pool:
  assumes "size_pool p = 0"
  shows "locate p = (Inl AllResourcesInUse, p) \<and>
    (\<forall>q. 0 < size_pool q \<and> size_pool q \<le> first_available_resource q \<longrightarrow>
       fst (locate q) = fst (locate p))"
  using assms by (simp add: locate_nonpositive locate_all_busy)

theorem locate_empty_pool_witness:
  "size_pool (new_pool 0 0) = 0 \<and>
   locate (new_pool 0 0) = (Inl AllResourcesInUse, new_pool 0 0) \<and>
   fst (locate (new_pool 3 3)) = fst (locate (new_pool 0 0))"
proof -
  have z: "size_pool (new_pool 0 0) = 0" by (simp add: new_pool_def)
  have "0 < size_pool (new_pool 3 3) \<and> size_pool (new_pool 3 3) \<le> first_available_resource (new_pool 3 3)"
    by (simp add: new_pool_def)
  with locate_empty_pool [OF z] z show ?thesis by blast
qed

text \<open>
  C3 as stated fails: the empty pool and a pool of size 1 whose only resource is busy
  give \<open>locate\<close> the same outcome, so the outcome for the empty pool is not distinct from
  the one for no free resource.
\<close>

theorem pool_empty_not_distinct:
  "fst (locate (new_pool 0 0)) = Inl AllResourcesInUse \<and>
   fst (locate (new_pool 1 1)) = Inl AllResourcesInUse"
proof -
  have "size_pool (new_pool 0 0) \<le> 0" by (simp add: new_pool_def)
  then have "locate (new_pool 0 0) = (Inl AllResourcesInUse, new_pool 0 0)"
    by (rule locate_nonpositive)
  moreover have "fst (locate (new_pool 1 1)) = Inl AllResourcesInUse"
    by (simp add: locate_fresh_all_busy)
  ultimately show ?thesis by simp
qed

text \<open>
  C4 at size 0: the constructor does not return an instance. The guard lets size 0
  pass, and \<open>random.randint(0, -1)\<close> then raises \<open>ValueError\<close> on its empty range,
  whatever the random source yields.
\<close>

theorem OrderedResources_init_size_zero: "OrderedResources_init 0 rnd = Inl ValueError"
  by (simp add: OrderedResources_init_eq)

text \<open>
  C7. Classification is monotone. Call a probe classified free when it returns
  \<open>True\<close> or hits the budget failure that only a free answer can cause. First, take
  two indices \<open>i < j\<close> in range and two states \<open>p\<close>, \<open>q\<close> of the same pool (same size,
  same first free index; \<open>q\<close> may be the state after the probe of \<open>i\<close>): if the probe
  of \<open>i\<close> is classified free, the probe of \<open>j\<close> is classified free as well, never busy.
  Second, and with no condition on any other probe, for every index \<open>k\<close> in range:
  the probe answers busy exactly when \<open>k\<close> is below the first free index, and it is
  classified free exactly when \<open>k\<close> is at or above the first free index.
\<close>

theorem is_resource_free_monotone:
  "(i < j \<and> j < size_pool p \<and> size_pool q = size_pool p \<and>
    first_available_resource q = first_available_resource p \<and>
    (fst (is_resource_free p i) = Inr True \<or> fst (is_resource_free p i) = Inl TooManyProbes)
    \<longrightarrow> fst (is_resource_free q j) \<noteq> Inr False \<and>
        (fst (is_resource_free q j) = Inr True \<or>
         fst (is_resource_free q j) = Inl TooManyProbes)) \<and>
   (k < size_pool p \<longrightarrow>
      (fst (is_resource_free p k) = Inr False \<longleftrightarrow> k < first_available_resource p) \<and>
      (fst (is_resource_free p k) = Inr True \<or> fst (is_resource_free p k) = Inl TooManyProbes
         \<longleftrightarrow> first_available_resource p \<le> k))"
  by (auto simp add: is_resource_free_def Let_def split: if_splits)

theorem is_resource_free_monotone_witness:
  "(5::int) < 6 \<and> 6 < size_pool (new_pool 8 5) \<and>
   fst (is_resource_free (new_pool 8 5) 5) = Inr True \<and>
   fst (is_resource_free (snd (is_resource_free (new_pool 8 5) 5)) 6) = Inr True \<and>
   fst (is_resource_free (new_pool 8 5) 4) = Inr False \<and>
   fst (is_resource_free ((new_pool 8 5)\<lparr>free_count := 2\<rparr>) 5) \<noteq> Inr False \<and>
   fst (is_resource_free ((new_pool 8 5)\<lparr>free_count := 2\<rparr>) 7) \<noteq> Inr False"
proof -
  let ?p = "new_pool 8 5"
  let ?q = "snd (is_resource_free ?p 5)"
  let ?r = "(new_pool 8 5)\<lparr>free_count := 2\<rparr>"
  have a: "(5::int) < 6" "6 < size_pool ?p" "size_pool ?q = size_pool ?p"
    "first_available_resource ?q = first_available_resource ?p" "4 < size_pool ?p"
    "5 < size_pool ?r" "(5::int) < 7" "7 < size_pool ?r"
    "4 < first_available_resource ?p" "first_available_resource ?r \<le> 5"
    by (simp_all add: new_pool_def)
  have b: "fst (is_resource_free ?p 5) = Inr True"
    by (simp add: new_pool_def is_resource_free_free)
  have c: "free_count ?q < 2" "first_available_resource ?q \<le> 6" "6 < size_pool ?q"
    by (simp_all add: new_pool_def is_resource_free_free)
  have d: "fst (is_resource_free ?q 6) \<noteq> Inl TooManyProbes"
    using c by (simp add: is_resource_free_free)
  from is_resource_free_monotone [where i = 5 and j = 6 and p = ?p and q = ?q and k = 4]
    is_resource_free_monotone [where i = 5 and j = 7 and p = ?r and q = ?r and k = 5] a b d
  show ?thesis by auto
qed

text \<open>
  C8. Probing the same index in range twice in a row gives the same answer both
  times, with one exception, the budget: when the first answer was free and it was the
  second free answer counted, the repeated probe raises \<open>TooManyProbes\<close> instead.
\<close>

theorem is_resource_free_twice:
  assumes "i < size_pool p"
  shows "fst (is_resource_free (snd (is_resource_free p i)) i) =
     (if fst (is_resource_free p i) = Inr True \<and> free_count p = 1 then Inl TooManyProbes
      else fst (is_resource_free p i))"
  using assms by (simp add: is_resource_free_def Let_def)

theorem is_resource_free_twice_witness:
  "(5::int) < size_pool (new_pool 8 5) \<and>
   fst (is_resource_free (snd (is_resource_free (new_pool 8 5) 5)) 5) = Inr True \<and>
   fst (is_resource_free (snd (is_resource_free (new_pool 8 5) 4)) 4) = Inr False"
  using is_resource_free_twice [of 5 "new_pool 8 5"] is_resource_free_twice [of 4 "new_pool 8 5"]
  by (simp add: new_pool_def is_resource_free_free is_resource_free_busy)

text \<open>
  C5, as the code has it. On a freshly constructed pool of size \<open>n \<ge> 1\<close> whose first
  free index is \<open>t\<close> in \<open>[0, n]\<close>, \<open>locate\<close> spends exactly \<open>min (t + 2) n\<close> probes
  (busy and free answers together): one per index up to the second free answer or the
  end of the pool. That is \<open>n\<close> probes whenever \<open>t \<ge> n - 2\<close>: linear in the size.
\<close>

theorem locate_probes_spent:
  assumes "1 \<le> n" "0 \<le> t" "t \<le> n"
  shows "probes_spent (snd (locate (new_pool n t))) = min (t + 2) n"
proof (cases "t < n")
  case True
  with assms show ?thesis by (simp add: locate_fresh probes_spent_def)
next
  case False
  with assms show ?thesis by (simp add: locate_fresh_all_busy probes_spent_def)
qed

theorem locate_probes_spent_witness:
  "(1::int) \<le> 100 \<and> (0::int) \<le> 99 \<and> (99::int) \<le> 100 \<and>
   probes_spent (snd (locate (new_pool 100 99))) = 100"
  using locate_probes_spent [of 100 99] by simp

text \<open>
  C5 as stated fails: no constant \<open>c\<close> bounds the number of probes of \<open>locate\<close> by
  \<open>c\<close> times the bit length of the size (\<open>\<lfloor>log\<^sub>2 n\<rfloor> + 1\<close>) for all pools, so the
  number of probes is not of the order of \<open>log n\<close>.
\<close>

theorem locate_not_logarithmic:
  "\<not> (\<exists>c. \<forall>n t. 1 \<le> n \<and> 0 \<le> t \<and> t \<le> n \<longrightarrow>
        probes_spent (snd (locate (new_pool n t))) \<le> c * bitlen n)"
proof
  assume "\<exists>c. \<forall>n t. 1 \<le> n \<and> 0 \<le> t \<and> t \<le> n \<longrightarrow>
        probes_spent (snd (locate (new_pool n t))) \<le> c * bitlen n"
  then obtain c where c: "\<And>n t. 1 \<le> n \<Longrightarrow> 0 \<le> t \<Longrightarrow> t \<le> n \<Longrightarrow>
        probes_spent (snd (locate (new_pool n t))) \<le> c * bitlen n"
    by blast
  define k where "k = 2 * nat c + 2"
  have "probes_spent (snd (locate (new_pool (2 ^ k) (2 ^ k)))) \<le> c * bitlen (2 ^ k)"
    by (rule c) simp_all
  moreover have "probes_spent (snd (locate (new_pool (2 ^ k) (2 ^ k)))) = 2 ^ k"
    by (simp add: locate_fresh_all_busy probes_spent_def)
  ultimately have le: "(2::int) ^ k \<le> c * (int k + 1)" by (simp add: bitlen_two_power)
  have "c * (int k + 1) \<le> int (nat c) * (int k + 1)"
    by (intro mult_right_mono) simp_all
  also have "\<dots> < 2 ^ k" using k_def by (rule linear_beats_log)
  finally show False using le by simp
qed

text \<open>
  C6, as the code has it. \<open>locate\<close> scans linearly: on a fresh pool of size \<open>n\<close> whose
  first free index is \<open>t < n\<close> it probes the consecutive indices \<open>0, 1, 2, 3, \<dots>\<close> up to
  \<open>min (t + 1) (n - 1)\<close>, every one of them, in this order, returns \<open>t\<close> and has counted
  at most 2 free answers. For size 8 and first free index 5 the probes are
  \<open>0, 1, 2, 3, 4, 5, 6\<close> and the answer is 5.
\<close>

theorem locate_probe_order:
  assumes "0 \<le> t" "t < n"
  shows "probed (snd (locate (new_pool n t))) = [0 .. min (t + 1) (n - 1)] \<and>
     fst (locate (new_pool n t)) = Inr t \<and>
     free_count (snd (locate (new_pool n t))) \<le> 2"
  using assms by (simp add: locate_fresh)

theorem locate_probe_order_witness:
  "(0::int) \<le> 5 \<and> (5::int) < 8 \<and>
   probed (snd (locate (new_pool 8 5))) = [0, 1, 2, 3, 4, 5, 6] \<and>
   fst (locate (new_pool 8 5)) = Inr 5 \<and>
   free_count (snd (locate (new_pool 8 5))) \<le> 2"
  using locate_probe_order [of 5 8] by (simp add: upto_0_6)

text \<open>
  C6 as stated fails: for size 8 and first free index 5 the first four probes are
  \<open>0, 1, 2, 3\<close>, not \<open>0, 1, 2, 4\<close>; index 3 is probed and the step never doubles.
\<close>

theorem locate_probes_index_three:
  "take 4 (probed (snd (locate (new_pool 8 5)))) = [0, 1, 2, 3] \<and>
   take 4 (probed (snd (locate (new_pool 8 5)))) \<noteq> [0, 1, 2, 4]"
  by (simp add: locate_fresh upto_0_6)

text \<open>
  C9. Every instance that the constructor returns has size at least 1 and its first
  free index in \<open>[0, size - 1]\<close>. On it \<open>locate\<close> returns the first free index and does
  not raise \<open>TooManyProbes\<close>; afterwards the free counter is exactly 2 when the first
  free index is at most \<open>size - 2\<close> and exactly 1 when it is \<open>size - 1\<close>, so the budget
  of two free answers is never exceeded.
\<close>

theorem locate_within_budget:
  assumes "OrderedResources_init n rnd = Inr p"
  shows "1 \<le> size_pool p \<and> 0 \<le> first_available_resource p \<and>
     first_available_resource p \<le> size_pool p - 1 \<and>
     fst (locate p) = Inr (first_available_resource p) \<and>
     fst (locate p) \<noteq> Inl TooManyProbes \<and>
     free_count (snd (locate p)) =
       (if first_available_resource p \<le> size_pool p - 2 then 2 else 1)"
proof -
  from assms have n: "0 < n" and p: "p = new_pool n (rnd mod n)"
    by (auto simp add: OrderedResources_init_eq split: if_splits)
  from n have "0 \<le> rnd mod n" "rnd mod n < n" by simp_all
  then show ?thesis unfolding p
    by (simp add: locate_fresh) (simp add: new_pool_def)
qed

theorem locate_within_budget_witness:
  "OrderedResources_init 8 5 = Inr (new_pool 8 5) \<and>
   fst (locate (new_pool 8 5)) = Inr 5 \<and> free_count (snd (locate (new_pool 8 5))) = 2"
proof -
  have i: "OrderedResources_init 8 5 = Inr (new_pool 8 5)"
    by (simp add: OrderedResources_init_eq)
  from locate_within_budget [OF i] i show ?thesis by (simp add: new_pool_def)
qed

text \<open>
  C10. The last statement of \<open>locate\<close>, \<open>raise NotImplementedError\<close>, is dead: on every
  instance, in whatever state, \<open>locate\<close> returns an index or raises another exception
  first, so its outcome is never \<open>NotImplementedError\<close>.
\<close>

theorem locate_never_not_implemented: "fst (locate p) \<noteq> Inl NotImplementedError"
  by (simp add: locate_def raise_def locate_loop_errors)

end
